theory Spec2Isabelle
  imports Complex_Main
begin

section \<open>Outcomes of a call\<close>

text \<open>
  A JavaScript call either returns or throws. A throw does not undo the writes made
  before it, so both outcomes carry the state the call leaves behind.
\<close>

datatype error = Error string | TypeError

datatype 's outcome = Returned 's | Thrown error 's

fun stateOf :: "'s outcome \<Rightarrow> 's" where
  "stateOf (Returned s) = s"
| "stateOf (Thrown e s) = s"

fun andThen :: "'s outcome \<Rightarrow> ('s \<Rightarrow> 's outcome) \<Rightarrow> 's outcome" where
  "andThen (Returned s) f = f s"
| "andThen (Thrown e s) f = Thrown e s"

section \<open>The setting registry (front_end/common/SettingRegistration.ts)\<close>

text \<open>
  Of a \<open>SettingRegistration\<close> the registry reads \<open>settingName\<close>, \<open>experiment\<close> and
  \<open>condition\<close> only; the remaining fields of the interface are carried along unread and
  are left out of the record.
\<close>

record SettingRegistration =
  settingName :: string
  "experiment" :: "string option"
  condition :: "string option"

text \<open>The two module-level variables \<open>registeredSettings\<close> and \<open>settingNameSet\<close>.\<close>

record Registry =
  registeredSettings :: "SettingRegistration list"
  settingNameSet :: "string set"

definition emptyRegistry :: Registry where
  "emptyRegistry = \<lparr>registeredSettings = [], settingNameSet = {}\<rparr>"

text \<open>The message of the thrown \<open>Error\<close>: the name between two apostrophes.\<close>

definition duplicateSettingName :: "string \<Rightarrow> string" where
  "duplicateSettingName name = ''Duplicate setting name '' @ [CHR 0x27] @ name @ [CHR 0x27]"

definition registerSettingExtension :: "SettingRegistration \<Rightarrow> Registry \<Rightarrow> Registry outcome" where
  "registerSettingExtension registration s =
     (if settingName registration \<in> settingNameSet s
      then Thrown (Error (duplicateSettingName (settingName registration))) s
      else Returned (s\<lparr>settingNameSet := insert (settingName registration) (settingNameSet s),
                        registeredSettings := registeredSettings s @ [registration]\<rparr>))"

text \<open>
  \<open>Root.Runtime.Runtime.isDescriptorEnabled\<close> is the external gating predicate; it is a
  parameter, applied to the pair of the descriptor's experiment and condition.
\<close>

definition getRegisteredSettings ::
    "(string option \<times> string option \<Rightarrow> bool) \<Rightarrow> Registry \<Rightarrow> SettingRegistration list" where
  "getRegisteredSettings isDescriptorEnabled s =
     filter (\<lambda>setting. isDescriptorEnabled (experiment setting, condition setting))
       (registeredSettings s)"

text \<open>
  The \<open>for\<close> loop of \<open>registerSettingExtengionsForTest\<close>: it runs over the supplied
  list and writes to the name set only; the throw leaves the names added so far in place.
\<close>

fun addSettingNames :: "SettingRegistration list \<Rightarrow> Registry \<Rightarrow> Registry outcome" where
  "addSettingNames [] s = Returned s"
| "addSettingNames (setting # settings) s =
     (if settingName setting \<in> settingNameSet s
      then Thrown (Error (duplicateSettingName (settingName setting))) s
      else addSettingNames settings
             (s\<lparr>settingNameSet := insert (settingName setting) (settingNameSet s)\<rparr>))"

text \<open>
  The list is assigned and the set cleared before the loop starts. The parameter
  \<open>forceReset\<close> defaults to \<open>false\<close> in the source; a call without it is a call with
  \<open>False\<close>.
\<close>

definition registerSettingExtengionsForTest ::
    "SettingRegistration list \<Rightarrow> bool \<Rightarrow> Registry \<Rightarrow> Registry outcome" where
  "registerSettingExtengionsForTest settings forceReset s =
     (if length (registeredSettings s) = 0 \<or> forceReset
      then addSettingNames settings (s\<lparr>registeredSettings := settings, settingNameSet := {}\<rparr>)
      else Returned s)"

subsection \<open>Sequences of registry calls\<close>

text \<open>A caller that registers the descriptors of a list one after the other.\<close>

fun registerAll :: "SettingRegistration list \<Rightarrow> Registry \<Rightarrow> Registry outcome" where
  "registerAll [] s = Returned s"
| "registerAll (d # ds) s = andThen (registerSettingExtension d s) (registerAll ds)"

text \<open>
  The calls that write to the registry. \<open>getRegisteredSettings\<close> only reads it and
  returns a fresh array, so it is no part of a trace.
\<close>

datatype registryCall =
    Register SettingRegistration
  | ResetForTest "SettingRegistration list" bool

fun perform :: "registryCall \<Rightarrow> Registry \<Rightarrow> Registry outcome" where
  "perform (Register d) s = registerSettingExtension d s"
| "perform (ResetForTest settings forceReset) s = registerSettingExtengionsForTest settings forceReset s"

fun performAll :: "registryCall list \<Rightarrow> Registry \<Rightarrow> Registry outcome" where
  "performAll [] s = Returned s"
| "performAll (c # cs) s = andThen (perform c s) (performAll cs)"

text \<open>The registry invariant: distinct names in the list, and the set holds exactly them.\<close>

definition consistent :: "Registry \<Rightarrow> bool" where
  "consistent s \<longleftrightarrow>
     distinct (map settingName (registeredSettings s)) \<and>
     settingNameSet s = set (map settingName (registeredSettings s))"

text \<open>Sample descriptors for the worked instances.\<close>

definition settingA :: SettingRegistration where
  "settingA = \<lparr>settingName = ''a'', experiment = None, condition = None\<rparr>"

definition settingB :: SettingRegistration where
  "settingB = \<lparr>settingName = ''b'', experiment = Some ''e'', condition = None\<rparr>"

definition settingC :: SettingRegistration where
  "settingC = \<lparr>settingName = ''c'', experiment = None, condition = Some ''q''\<rparr>"

section \<open>The details view (front_end/timeline/TimelineDetailsView.js)\<close>

subsection \<open>Numbers and the footer strings\<close>

text \<open>
  A \<open>number\<close> is the exact value of a finite JavaScript number. The view does no
  arithmetic on times that a claim depends on; it formats one of them.
\<close>

type_synonym number = rat

definition digitChars :: string where
  "digitChars = ''0123456789''"

fun decimalDigits :: "nat \<Rightarrow> string" where
  "decimalDigits n =
     (if n < 10 then [digitChars ! n]
      else decimalDigits (n div 10) @ [digitChars ! (n mod 10)])"

text \<open>
  \<open>Number.prototype.toFixed\<close> as ECMAScript defines it on the value of a finite
  number: the sign, then the integer \<open>n\<close> nearest to \<open>x * 10 ^ f\<close> (the larger one of
  two), written in decimal, padded with zeros to more than \<open>f\<close> digits, with a point
  before the last \<open>f\<close> digits. From \<open>10 ^ 21\<close> on the language falls back to
  \<open>Number::toString\<close>, which depends on the floating-point representation and is a
  parameter here.
\<close>

definition toFixed :: "(number \<Rightarrow> string) \<Rightarrow> number \<Rightarrow> nat \<Rightarrow> string" where
  "toFixed numberToString x f =
     (let s = (if x < 0 then ''-'' else []);
          x = (if x < 0 then - x else x)
      in if x \<ge> 10 ^ 21 then s @ numberToString x
         else
           let n = nat \<lfloor>x * 10 ^ f + 1 / 2\<rfloor>;
               m = (if n = 0 then ''0'' else decimalDigits n);
               m = (if f \<noteq> 0
                    then (let k = length m;
                              m = (if k \<le> f then replicate (f + 1 - k) (CHR ''0'') @ m else m);
                              k = length m
                          in take (k - f) m @ ''.'' @ drop (k - f) m)
                    else m)
           in s @ m)"

text \<open>
  Modelled from the spec: the localisation module (\<open>i18n.getLocalizedString\<close>) is not
  among the sources. The footer strings of the spec are the English \<open>UIStrings\<close>
  templates with their placeholders filled in, and that is what these functions do for
  \<open>estimated\<close>, \<open>totalBlockingTimeSmss\<close> and \<open>learnMore\<close>.
\<close>

definition estimatedString :: string where
  "estimatedString = ''estimated''"

definition totalBlockingTimeSmss :: "string \<Rightarrow> string \<Rightarrow> string" where
  "totalBlockingTimeSmss PH1 PH2 = ''Total blocking time: '' @ PH1 @ ''ms'' @ PH2"

definition learnMore :: string where
  "learnMore = ''Learn more''"

datatype toolbarItem = ToolbarText string | ToolbarLink string string

subsection \<open>The objects the view is handed\<close>

record Event =
  name :: string
  eventId :: nat

text \<open>
  The two record types of \<open>TimelineModel.RecordType\<close> that the view compares an
  event's name with; the enumeration is not among the sources, the values are its
  \<open>Paint\<close> and \<open>RasterTask\<close> members.
\<close>

definition RecordType_Paint :: string where
  "RecordType_Paint = ''Paint''"

definition RecordType_RasterTask :: string where
  "RecordType_RasterTask = ''RasterTask''"

record TimelineFrame =
  frameId :: nat
  layerTree :: "nat option"

record Window =
  left :: number
  right :: number

record TotalBlockingTime =
  estimated :: bool
  time :: number

text \<open>
  Modelled from the spec: \<open>PerformanceModel\<close> and its \<open>timelineModel()\<close> are not among
  the sources. The spec has the model expose window bounds, a blocking-time metric and a
  frame/film-strip lookup; \<open>minimumRecordTime\<close> and \<open>totalBlockingTime\<close> are read
  through \<open>timelineModel()\<close>, which every model has. \<open>modelId\<close> stands for the
  object's identity.
\<close>

record PerformanceModel =
  modelId :: nat
  window :: Window
  minimumRecordTime :: number
  totalBlockingTime :: TotalBlockingTime
  filmStripModelFrame :: "TimelineFrame \<Rightarrow> nat option"

record Track =
  syncEvents :: "Event list"

datatype TimelineSelection =
    TraceEventSelection Event
  | FrameSelection TimelineFrame
  | NetworkRequestSelection nat
  | RangeSelection number number

definition fromRange :: "number \<Rightarrow> number \<Rightarrow> TimelineSelection" where
  "fromRange startTime endTime = RangeSelection startTime endTime"

datatype Tab = Details | EventLog | CallTree | BottomUp | PaintProfiler | LayerViewer

text \<open>
  The widgets shown in tabs. The three tree views are created once, in the constructor,
  one per tab; a layers view or a paint profiler view is created on demand and carries
  the number of its creation as its identity.
\<close>

datatype view =
    DefaultDetailsWidget
  | RangeDetailView Tab
  | LayersView nat
  | PaintProfilerView nat

text \<open>
  What \<open>TimelineUIUtils\<close> builds for the summary tab, named by the call and its
  arguments. \<open>RangeDetails events startTime endTime minimumRecordTime\<close> is the pie chart
  of \<open>statsForTimeRange(events, startTime, endTime)\<close> under the range title made of the
  two offsets from \<open>minimumRecordTime\<close>.
\<close>

datatype content =
    EmptyDiv
  | TraceEventDetails Event
  | FrameDetails TimelineFrame "nat option"
  | NetworkRequestDetails nat
  | RangeDetails "Event list" number number number

text \<open>Calls the view makes on its collaborators, in the order it makes them.\<close>

datatype effect =
    LinkifierReset
  | RemoveWindowListener nat
  | AddWindowListener nat
  | ViewSetModel view "PerformanceModel option" "Track option"
  | ViewUpdateContents view TimelineSelection
  | ShowLayerTree nat nat
  | PaintProfilerSetEvent nat nat Event

text \<open>The two promises whose \<open>then\<close> callbacks run after \<open>setSelection\<close> has returned.\<close>

datatype continuation =
    TraceEventDetailsBuilt Event
  | NetworkRequestDetailsBuilt nat

text \<open>
  What the view reads from outside itself: the first \<open>PaintProfilerModel\<close> of the target
  manager (if any), the result of \<open>TimelinePaintProfilerView.setEvent\<close> (whether the
  event has profile data), the tab that the tab strip selects when the selected tab is
  closed, and \<open>Number::toString\<close> for \<open>toFixed\<close>.
\<close>

record env =
  paintProfilerModel :: "nat option"
  setEvent :: "nat \<Rightarrow> Event \<Rightarrow> bool"
  tabAfterClose :: "Tab list \<Rightarrow> Tab option"
  numberToString :: "number \<Rightarrow> string"

subsection \<open>The tab strip\<close>

text \<open>
  Modelled from the spec: \<open>UI.TabbedPane\<close> is not among the sources. The spec speaks of
  a tab strip with a set of currently open tabs and a currently selected tab; the model
  keeps the open tabs in order, each with its widget, and the selected tab's id.
  Closing removes a tab; when the selected tab is closed the strip selects the tab given
  by \<open>tabAfterClose\<close>. A selection made by the program (no user gesture) reaches
  \<open>_tabSelected\<close> with \<open>isUserGesture\<close> unset, where it returns at once, so the strip's
  operations need not call back into the view. Tab titles are left out.
\<close>

record TabbedPane =
  tabs :: "(Tab \<times> view) list"
  selectedTabId :: "Tab option"

definition hasTab :: "Tab \<Rightarrow> TabbedPane \<Rightarrow> bool" where
  "hasTab tabId p \<longleftrightarrow> tabId \<in> set (map fst (tabs p))"

definition otherTabs :: "Tab \<Rightarrow> TabbedPane \<Rightarrow> Tab list" where
  "otherTabs tabId p = filter (\<lambda>t. t \<noteq> tabId) (map fst (tabs p))"

definition paneAppendTab :: "Tab \<Rightarrow> view \<Rightarrow> TabbedPane \<Rightarrow> TabbedPane" where
  "paneAppendTab tabId v p = p\<lparr>tabs := tabs p @ [(tabId, v)]\<rparr>"

definition selectTab :: "Tab \<Rightarrow> TabbedPane \<Rightarrow> TabbedPane" where
  "selectTab tabId p = (if hasTab tabId p then p\<lparr>selectedTabId := Some tabId\<rparr> else p)"

definition closeTabs :: "env \<Rightarrow> Tab list \<Rightarrow> TabbedPane \<Rightarrow> TabbedPane" where
  "closeTabs e ids p =
     (let remaining = filter (\<lambda>t. fst t \<notin> set ids) (tabs p)
      in p\<lparr>tabs := remaining,
            selectedTabId :=
              (case selectedTabId p of
                 None \<Rightarrow> None
               | Some t \<Rightarrow> if t \<in> set ids then tabAfterClose e (map fst remaining) else Some t)\<rparr>)"

definition closeTab :: "env \<Rightarrow> Tab \<Rightarrow> TabbedPane \<Rightarrow> TabbedPane" where
  "closeTab e tabId p = closeTabs e [tabId] p"

subsection \<open>The view\<close>

text \<open>
  The fields of \<open>TimelineDetailsView\<close>, without the leading underscore. \<open>viewsCreated\<close>
  counts the on-demand views constructed so far, \<open>detailsContent\<close> is the children of
  the summary tab's body, \<open>pending\<close> the promise callbacks not yet run and \<open>effects\<close>
  the calls made on collaborators. \<open>preferredTabId\<close> is \<open>None\<close> while it is
  \<open>undefined\<close>, \<open>selectedTabId\<close> is \<open>None\<close> while it is \<open>null\<close>.
\<close>

record TimelineDetailsView =
  tabbedPane :: TabbedPane
  preferredTabId :: "Tab option"
  model :: "PerformanceModel option"
  track :: "Track option"
  selection :: "TimelineSelection option"
  lazyPaintProfilerView :: "nat option"
  lazyLayersView :: "nat option"
  viewsCreated :: nat
  detailsContent :: "content list"
  additionalMetricsToolbar :: "toolbarItem list"
  pending :: "continuation list"
  effects :: "effect list"

text \<open>
  \<open>_rangeDetailViews\<close>: the map filled in the constructor and never written again.
\<close>

definition rangeDetailViews :: "Tab \<Rightarrow> view option" where
  "rangeDetailViews tabId =
     (if tabId = BottomUp \<or> tabId = CallTree \<or> tabId = EventLog then Some (RangeDetailView tabId) else None)"

definition rangeDetailViewsValues :: "view list" where
  "rangeDetailViewsValues = [RangeDetailView BottomUp, RangeDetailView CallTree, RangeDetailView EventLog]"

definition emit :: "effect \<Rightarrow> TimelineDetailsView \<Rightarrow> TimelineDetailsView" where
  "emit x s = s\<lparr>effects := effects s @ [x]\<rparr>"

definition setPreferredTab :: "Tab \<Rightarrow> TimelineDetailsView \<Rightarrow> TimelineDetailsView" where
  "setPreferredTab tabId s = s\<lparr>preferredTabId := Some tabId\<rparr>"

text \<open>
  \<open>_appendTab\<close>. The test \<open>this._preferredTabId !== this._tabbedPane.selectedTabId\<close>
  is false only when both are the same tab id: \<open>undefined\<close> and \<open>null\<close> differ.
\<close>

definition appendTab :: "Tab \<Rightarrow> view \<Rightarrow> TimelineDetailsView \<Rightarrow> TimelineDetailsView" where
  "appendTab tabId v s =
     (let p = paneAppendTab tabId v (tabbedPane s)
      in if preferredTabId s \<noteq> None \<and> preferredTabId s = selectedTabId p
         then s\<lparr>tabbedPane := p\<rparr>
         else s\<lparr>tabbedPane := selectTab tabId p\<rparr>)"

text \<open>\<open>_setContent\<close>: the loop runs over the tab ids read before it starts.\<close>

definition setContent :: "env \<Rightarrow> content \<Rightarrow> TimelineDetailsView \<Rightarrow> TimelineDetailsView" where
  "setContent e node s =
     (let allTabs = otherTabs Details (tabbedPane s);
          p = foldl (\<lambda>p t. if rangeDetailViews t = None then closeTab e t p else p)
                (tabbedPane s) allTabs
      in s\<lparr>tabbedPane := p, detailsContent := [node]\<rparr>)"

text \<open>
  \<open>_updateContents\<close>. The lookup of \<open>selectedTabId || ''\<close> finds no view when no tab
  is selected. \<open>this._model.window()\<close> is a \<open>TypeError\<close> without a model.
\<close>

definition updateContents :: "TimelineDetailsView \<Rightarrow> TimelineDetailsView outcome" where
  "updateContents s =
     (case selectedTabId (tabbedPane s) of
        None \<Rightarrow> Returned s
      | Some tabId \<Rightarrow>
          (case rangeDetailViews tabId of
             None \<Rightarrow> Returned s
           | Some v \<Rightarrow>
               (case model s of
                  None \<Rightarrow> Thrown TypeError s
                | Some m \<Rightarrow>
                    Returned (emit (ViewUpdateContents v
                      (case selection s of
                         Some sel \<Rightarrow> sel
                       | None \<Rightarrow> fromRange (left (window m)) (right (window m)))) s))))"

definition updateSelectedRangeStats ::
    "env \<Rightarrow> number \<Rightarrow> number \<Rightarrow> TimelineDetailsView \<Rightarrow> TimelineDetailsView" where
  "updateSelectedRangeStats e startTime endTime s =
     (case model s of
        None \<Rightarrow> s
      | Some m \<Rightarrow>
          (case track s of
             None \<Rightarrow> s
           | Some t \<Rightarrow>
               setContent e (RangeDetails (syncEvents t) startTime endTime (minimumRecordTime m)) s))"

definition updateContentsFromWindow :: "env \<Rightarrow> TimelineDetailsView \<Rightarrow> TimelineDetailsView outcome" where
  "updateContentsFromWindow e s =
     (case model s of
        None \<Rightarrow> Returned (setContent e EmptyDiv s)
      | Some m \<Rightarrow>
          updateContents (updateSelectedRangeStats e (left (window m)) (right (window m)) s))"

text \<open>
  \<open>_layersView\<close> and \<open>_paintProfilerView\<close> return the cached view, or construct one
  from \<open>this._model\<close> and cache it. Without a model the construction is a \<open>TypeError\<close>,
  thrown before anything is written.
\<close>

definition layersView :: "TimelineDetailsView \<Rightarrow> error + nat \<times> TimelineDetailsView" where
  "layersView s =
     (case lazyLayersView s of
        Some v \<Rightarrow> Inr (v, s)
      | None \<Rightarrow>
          (case model s of
             None \<Rightarrow> Inl TypeError
           | Some m \<Rightarrow>
               Inr (viewsCreated s,
                    s\<lparr>lazyLayersView := Some (viewsCreated s), viewsCreated := Suc (viewsCreated s)\<rparr>)))"

definition paintProfilerView :: "TimelineDetailsView \<Rightarrow> error + nat \<times> TimelineDetailsView" where
  "paintProfilerView s =
     (case lazyPaintProfilerView s of
        Some v \<Rightarrow> Inr (v, s)
      | None \<Rightarrow>
          (case model s of
             None \<Rightarrow> Inl TypeError
           | Some m \<Rightarrow>
               Inr (viewsCreated s,
                    s\<lparr>lazyPaintProfilerView := Some (viewsCreated s),
                      viewsCreated := Suc (viewsCreated s)\<rparr>)))"

definition showEventInPaintProfiler ::
    "env \<Rightarrow> Event \<Rightarrow> TimelineDetailsView \<Rightarrow> TimelineDetailsView outcome" where
  "showEventInPaintProfiler e event s =
     (case paintProfilerModel e of
        None \<Rightarrow> Returned s
      | Some ppm \<Rightarrow>
          (case paintProfilerView s of
             Inl err \<Rightarrow> Thrown err s
           | Inr (v, s1) \<Rightarrow>
               (let s2 = emit (PaintProfilerSetEvent v ppm event) s1
                in if \<not> setEvent e ppm event then Returned s2
                   else if hasTab PaintProfiler (tabbedPane s2) then Returned s2
                   else Returned (appendTab PaintProfiler (PaintProfilerView v) s2))))"

definition appendDetailsTabsForTraceEventAndShowDetails ::
    "env \<Rightarrow> Event \<Rightarrow> content \<Rightarrow> TimelineDetailsView \<Rightarrow> TimelineDetailsView outcome" where
  "appendDetailsTabsForTraceEventAndShowDetails e event node s =
     (let s1 = setContent e node s
      in if name event = RecordType_Paint \<or> name event = RecordType_RasterTask
         then showEventInPaintProfiler e event s1
         else Returned s1)"

text \<open>
  The \<open>Frame\<close> case of \<open>setSelection\<close>, for a view that has the model \<open>m\<close>.
\<close>

definition showFrame ::
    "env \<Rightarrow> PerformanceModel \<Rightarrow> TimelineFrame \<Rightarrow> TimelineDetailsView \<Rightarrow> TimelineDetailsView outcome" where
  "showFrame e m frame s =
     (let s1 = setContent e (FrameDetails frame (filmStripModelFrame m frame)) s
      in case layerTree frame of
           None \<Rightarrow> Returned s1
         | Some tree \<Rightarrow>
             (case layersView s1 of
                Inl err \<Rightarrow> Thrown err s1
              | Inr (v, s2) \<Rightarrow>
                  (let s3 = emit (ShowLayerTree v tree) s2
                   in if \<not> hasTab LayerViewer (tabbedPane s3)
                      then Returned (appendTab LayerViewer (LayersView v) s3)
                      else Returned s3)))"

text \<open>
  \<open>setSelection\<close>. The two asynchronous builders are called at once (their arguments
  read \<open>this._model\<close>) and hand back promises; the callbacks are queued in \<open>pending\<close>.
\<close>

definition setSelection ::
    "env \<Rightarrow> TimelineSelection option \<Rightarrow> TimelineDetailsView \<Rightarrow> TimelineDetailsView outcome" where
  "setSelection e sel s0 =
     (let s = (emit LinkifierReset s0)\<lparr>selection := sel\<rparr>
      in case sel of
           None \<Rightarrow> updateContentsFromWindow e s
         | Some (TraceEventSelection event) \<Rightarrow>
             (case model s of
                None \<Rightarrow> Thrown TypeError s
              | Some m \<Rightarrow> updateContents (s\<lparr>pending := pending s @ [TraceEventDetailsBuilt event]\<rparr>))
         | Some (FrameSelection frame) \<Rightarrow>
             (case model s of
                None \<Rightarrow> Thrown TypeError s
              | Some m \<Rightarrow> andThen (showFrame e m frame s) updateContents)
         | Some (NetworkRequestSelection request) \<Rightarrow>
             (case model s of
                None \<Rightarrow> Thrown TypeError s
              | Some m \<Rightarrow>
                  updateContents (s\<lparr>pending := pending s @ [NetworkRequestDetailsBuilt request]\<rparr>))
         | Some (RangeSelection startTime endTime) \<Rightarrow>
             updateContents (updateSelectedRangeStats e startTime endTime s))"

text \<open>A queued promise callback runs: it leaves the queue and its body is executed.\<close>

definition settle ::
    "env \<Rightarrow> continuation \<Rightarrow> TimelineDetailsView \<Rightarrow> TimelineDetailsView outcome" where
  "settle e k s0 =
     (let s = s0\<lparr>pending := remove1 k (pending s0)\<rparr>
      in case k of
           TraceEventDetailsBuilt event \<Rightarrow>
             appendDetailsTabsForTraceEventAndShowDetails e event (TraceEventDetails event) s
         | NetworkRequestDetailsBuilt request \<Rightarrow>
             Returned (setContent e (NetworkRequestDetails request) s))"

text \<open>
  \<open>setModel\<close>. The footer is rebuilt after \<open>setSelection(null)\<close> has returned; the
  link appended after the text is the "Learn more" link.
\<close>

definition rebind :: "PerformanceModel option \<Rightarrow> TimelineDetailsView \<Rightarrow> TimelineDetailsView" where
  "rebind m s =
     (if model s \<noteq> m
      then (let s1 = (case model s of None \<Rightarrow> s | Some old \<Rightarrow> emit (RemoveWindowListener (modelId old)) s);
                s2 = s1\<lparr>model := m\<rparr>
            in case m of None \<Rightarrow> s2 | Some new \<Rightarrow> emit (AddWindowListener (modelId new)) s2)
      else s)"

definition footer :: "env \<Rightarrow> PerformanceModel option \<Rightarrow> toolbarItem list" where
  "footer e m =
     (case m of
        None \<Rightarrow> []
      | Some mm \<Rightarrow>
          (let isEstimate = (if estimated (totalBlockingTime mm)
                             then '' ('' @ estimatedString @ '')'' else []);
               message = totalBlockingTimeSmss
                           (toFixed (numberToString e) (time (totalBlockingTime mm)) 2) isEstimate
           in [ToolbarText message, ToolbarLink ''https://web.dev/tbt/'' learnMore]))"

definition setModel ::
    "env \<Rightarrow> PerformanceModel option \<Rightarrow> Track option \<Rightarrow> TimelineDetailsView
      \<Rightarrow> TimelineDetailsView outcome" where
  "setModel e m t s0 =
     (let s1 = (rebind m s0)\<lparr>track := t\<rparr>;
          s2 = s1\<lparr>tabbedPane := closeTabs e [PaintProfiler, LayerViewer] (tabbedPane s1)\<rparr>;
          s3 = s2\<lparr>effects := effects s2 @ map (\<lambda>v. ViewSetModel v m t) rangeDetailViewsValues\<rparr>;
          s4 = s3\<lparr>lazyPaintProfilerView := None, lazyLayersView := None\<rparr>
      in andThen (setSelection e None s4)
           (\<lambda>s5. Returned (s5\<lparr>additionalMetricsToolbar := footer e m\<rparr>)))"

text \<open>The constructor: the summary tab, the preferred tab, then the three tree views.\<close>

definition constructor :: TimelineDetailsView where
  "constructor =
     (let s0 = \<lparr>tabbedPane = \<lparr>tabs = [], selectedTabId = None\<rparr>, preferredTabId = None,
                model = None, track = None, selection = None,
                lazyPaintProfilerView = None, lazyLayersView = None, viewsCreated = 0,
                detailsContent = [], additionalMetricsToolbar = [], pending = [],
                effects = []\<rparr>;
          s1 = appendTab Details DefaultDetailsWidget s0;
          s2 = setPreferredTab Details s1;
          s3 = appendTab BottomUp (RangeDetailView BottomUp) s2;
          s4 = appendTab CallTree (RangeDetailView CallTree) s3;
          s5 = appendTab EventLog (RangeDetailView EventLog) s4
      in s5)"

text \<open>The \<open>updateContents\<close> calls among a list of effects.\<close>

fun updateContentsCalls :: "effect list \<Rightarrow> (view \<times> TimelineSelection) list" where
  "updateContentsCalls [] = []"
| "updateContentsCalls (ViewUpdateContents v sel # xs) = (v, sel) # updateContentsCalls xs"
| "updateContentsCalls (x # xs) = updateContentsCalls xs"

subsection \<open>Sample values for the worked instances\<close>

definition sampleEnv :: env where
  "sampleEnv =
     \<lparr>paintProfilerModel = None, setEvent = (\<lambda>ppm event. False),
      tabAfterClose = (\<lambda>ts. case ts of [] \<Rightarrow> None | t # rest \<Rightarrow> Some t),
      numberToString = (\<lambda>x. [])\<rparr>"

definition sampleModel :: PerformanceModel where
  "sampleModel =
     \<lparr>modelId = 1, window = \<lparr>left = 10, right = 50\<rparr>, minimumRecordTime = 5,
      totalBlockingTime = \<lparr>estimated = False, time = 120\<rparr>,
      filmStripModelFrame = (\<lambda>frame. None)\<rparr>"

definition paintEvent :: Event where
  "paintEvent = \<lparr>name = ''Paint'', eventId = 7\<rparr>"

definition sampleTrack :: Track where
  "sampleTrack = \<lparr>syncEvents = [paintEvent]\<rparr>"

definition layeredFrame :: TimelineFrame where
  "layeredFrame = \<lparr>frameId = 3, layerTree = Some 4\<rparr>"

text \<open>
  The view after the constructor and \<open>setModel(sampleModel, sampleTrack)\<close>, with the
  summary tab selected (see \<open>summaryShown_reached\<close>), and the same view after the user
  has switched to the Bottom-Up tab: \<open>_tabSelected\<close> has set the preferred tab and
  refreshed the view of that tab.
\<close>

definition summaryShown :: TimelineDetailsView where
  "summaryShown =
     \<lparr>tabbedPane =
        \<lparr>tabs = [(Details, DefaultDetailsWidget), (BottomUp, RangeDetailView BottomUp),
                 (CallTree, RangeDetailView CallTree), (EventLog, RangeDetailView EventLog)],
         selectedTabId = Some Details\<rparr>,
      preferredTabId = Some Details, model = Some sampleModel, track = Some sampleTrack,
      selection = None, lazyPaintProfilerView = None, lazyLayersView = None,
      viewsCreated = 0, detailsContent = [RangeDetails [paintEvent] 10 50 5],
      additionalMetricsToolbar =
        [ToolbarText ''Total blocking time: 120.00ms'',
         ToolbarLink ''https://web.dev/tbt/'' ''Learn more''],
      pending = [],
      effects =
        [AddWindowListener 1,
         ViewSetModel (RangeDetailView BottomUp) (Some sampleModel) (Some sampleTrack),
         ViewSetModel (RangeDetailView CallTree) (Some sampleModel) (Some sampleTrack),
         ViewSetModel (RangeDetailView EventLog) (Some sampleModel) (Some sampleTrack),
         LinkifierReset]\<rparr>"

definition bottomUpShown :: TimelineDetailsView where
  "bottomUpShown =
     emit (ViewUpdateContents (RangeDetailView BottomUp) (fromRange 10 50))
       (summaryShown\<lparr>tabbedPane := selectTab BottomUp (tabbedPane summaryShown),
                     preferredTabId := Some BottomUp\<rparr>)"

section \<open>Registry: helper lemmas\<close>

lemma addSettingNames_list:
  "registeredSettings (stateOf (addSettingNames settings s)) = registeredSettings s"
  by (induction settings arbitrary: s) auto

lemma addSettingNames_names:
  "settingNameSet (stateOf (addSettingNames settings s))
     \<subseteq> settingNameSet s \<union> set (map settingName settings)"
proof (induction settings arbitrary: s)
  case Nil
  then show ?case by simp
next
  case (Cons x xs)
  let ?s = "s\<lparr>settingNameSet := insert (settingName x) (settingNameSet s)\<rparr>"
  have "settingNameSet (stateOf (addSettingNames xs ?s))
      \<subseteq> settingNameSet ?s \<union> set (map settingName xs)"
    by (rule Cons.IH)
  then show ?case by auto
qed

lemma addSettingNames_fresh:
  "distinct (map settingName settings) \<Longrightarrow>
   set (map settingName settings) \<inter> settingNameSet s = {} \<Longrightarrow>
   addSettingNames settings s =
     Returned (s\<lparr>settingNameSet := settingNameSet s \<union> set (map settingName settings)\<rparr>)"
proof (induction settings arbitrary: s)
  case Nil
  then show ?case by simp
next
  case (Cons x xs)
  let ?s = "s\<lparr>settingNameSet := insert (settingName x) (settingNameSet s)\<rparr>"
  from Cons.prems have fresh: "settingName x \<notin> settingNameSet s" by auto
  from Cons.prems have "distinct (map settingName xs)"
    and "set (map settingName xs) \<inter> settingNameSet ?s = {}" by auto
  then have "addSettingNames xs ?s =
      Returned (?s\<lparr>settingNameSet := settingNameSet ?s \<union> set (map settingName xs)\<rparr>)"
    by (rule Cons.IH)
  with fresh show ?case by simp
qed

lemma addSettingNames_repeat:
  "distinct (map settingName pre) \<Longrightarrow>
   set (map settingName pre) \<inter> settingNameSet s = {} \<Longrightarrow>
   settingName x \<in> settingNameSet s \<union> set (map settingName pre) \<Longrightarrow>
   addSettingNames (pre @ x # post) s =
     Thrown (Error (duplicateSettingName (settingName x)))
       (s\<lparr>settingNameSet := settingNameSet s \<union> set (map settingName pre)\<rparr>)"
proof (induction pre arbitrary: s)
  case Nil
  then show ?case by simp
next
  case (Cons y ys)
  let ?s = "s\<lparr>settingNameSet := insert (settingName y) (settingNameSet s)\<rparr>"
  from Cons.prems have fresh: "settingName y \<notin> settingNameSet s" by auto
  from Cons.prems have "distinct (map settingName ys)"
    and "set (map settingName ys) \<inter> settingNameSet ?s = {}"
    and "settingName x \<in> settingNameSet ?s \<union> set (map settingName ys)" by auto
  then have "addSettingNames (ys @ x # post) ?s =
      Thrown (Error (duplicateSettingName (settingName x)))
        (?s\<lparr>settingNameSet := settingNameSet ?s \<union> set (map settingName ys)\<rparr>)"
    by (rule Cons.IH)
  with fresh show ?case by simp
qed

lemma first_repeat:
  "\<not> distinct (map f xs) \<Longrightarrow>
   \<exists>pre x post. xs = pre @ x # post \<and> distinct (map f pre) \<and> f x \<in> set (map f pre)"
proof (induction xs rule: rev_induct)
  case Nil
  then show ?case by simp
next
  case (snoc y ys)
  show ?case
  proof (cases "distinct (map f ys)")
    case True
    with snoc.prems have "f y \<in> set (map f ys)" by simp
    with True have "ys @ [y] = ys @ y # [] \<and> distinct (map f ys) \<and> f y \<in> set (map f ys)"
      by simp
    then show ?thesis by blast
  next
    case False
    then obtain pre x post
      where "ys = pre @ x # post" "distinct (map f pre)" "f x \<in> set (map f pre)"
      using snoc.IH by blast
    then have "ys @ [y] = pre @ x # (post @ [y]) \<and> distinct (map f pre) \<and> f x \<in> set (map f pre)"
      by simp
    then show ?thesis by blast
  qed
qed

lemma registerAll_fresh:
  "distinct (map settingName ds) \<Longrightarrow>
   set (map settingName ds) \<inter> settingNameSet s = {} \<Longrightarrow>
   registerAll ds s =
     Returned \<lparr>registeredSettings = registeredSettings s @ ds,
               settingNameSet = settingNameSet s \<union> set (map settingName ds)\<rparr>"
proof (induction ds arbitrary: s)
  case Nil
  then show ?case by simp
next
  case (Cons d ds)
  let ?s = "s\<lparr>settingNameSet := insert (settingName d) (settingNameSet s),
               registeredSettings := registeredSettings s @ [d]\<rparr>"
  from Cons.prems have fresh: "settingName d \<notin> settingNameSet s" by auto
  from Cons.prems have "distinct (map settingName ds)"
    and "set (map settingName ds) \<inter> settingNameSet ?s = {}" by auto
  then have "registerAll ds ?s =
      Returned \<lparr>registeredSettings = registeredSettings ?s @ ds,
                settingNameSet = settingNameSet ?s \<union> set (map settingName ds)\<rparr>"
    by (rule Cons.IH)
  with fresh show ?case by (simp add: registerSettingExtension_def)
qed

lemma register_consistent:
  "consistent s \<Longrightarrow> registerSettingExtension d s = Returned s' \<Longrightarrow> consistent s'"
  by (auto simp: registerSettingExtension_def consistent_def split: if_splits)

lemma addSettingNames_returned:
  "addSettingNames settings s = Returned s' \<Longrightarrow>
   distinct (map settingName settings) \<and>
   set (map settingName settings) \<inter> settingNameSet s = {} \<and>
   s' = s\<lparr>settingNameSet := settingNameSet s \<union> set (map settingName settings)\<rparr>"
proof (induction settings arbitrary: s)
  case Nil
  then show ?case by simp
next
  case (Cons x xs)
  let ?s = "s\<lparr>settingNameSet := insert (settingName x) (settingNameSet s)\<rparr>"
  from Cons.prems have fresh: "settingName x \<notin> settingNameSet s"
    by (auto split: if_splits)
  with Cons.prems have "addSettingNames xs ?s = Returned s'" by simp
  then have "distinct (map settingName xs) \<and>
      set (map settingName xs) \<inter> settingNameSet ?s = {} \<and>
      s' = ?s\<lparr>settingNameSet := settingNameSet ?s \<union> set (map settingName xs)\<rparr>"
    by (rule Cons.IH)
  with fresh show ?case by auto
qed

lemma reset_consistent:
  "consistent s \<Longrightarrow> registerSettingExtengionsForTest settings forceReset s = Returned s' \<Longrightarrow>
   consistent s'"
  by (auto simp: registerSettingExtengionsForTest_def consistent_def
      dest!: addSettingNames_returned split: if_splits)

lemma perform_consistent:
  "consistent s \<Longrightarrow> perform c s = Returned s' \<Longrightarrow> consistent s'"
  by (cases c) (auto intro: register_consistent reset_consistent)

lemma performAll_consistent:
  "consistent s \<Longrightarrow> performAll cs s = Returned s' \<Longrightarrow> consistent s'"
proof (induction cs arbitrary: s)
  case Nil
  then show ?case by simp
next
  case (Cons c cs)
  show ?case
  proof (cases "perform c s")
    case (Returned t)
    with Cons.prems have "consistent t" and "performAll cs t = Returned s'"
      by (auto intro: perform_consistent)
    then show ?thesis by (rule Cons.IH)
  next
    case (Thrown e t)
    with Cons.prems show ?thesis by simp
  qed
qed

section \<open>Registry: the claims\<close>

text \<open>
  C1, as stated, fails. The state left behind by a throwing rebuild holds the list
  \<open>[a, b, a, c]\<close> and the name set \<open>{a, b}\<close>; the name \<open>c\<close> occurs in that registry,
  and registering a descriptor named \<open>c\<close> there returns and appends a second \<open>c\<close>.
\<close>

theorem register_repeated_name_counterexample:
  "stateOf (registerSettingExtengionsForTest [settingA, settingB, settingA, settingC] True
      \<lparr>registeredSettings = [settingC], settingNameSet = {''c''}\<rparr>) =
     \<lparr>registeredSettings = [settingA, settingB, settingA, settingC],
      settingNameSet = {''b'', ''a''}\<rparr> \<and>
   settingName settingC \<in> set (map settingName [settingA, settingB, settingA, settingC]) \<and>
   registerSettingExtension settingC
     \<lparr>registeredSettings = [settingA, settingB, settingA, settingC],
      settingNameSet = {''b'', ''a''}\<rparr> =
     Returned \<lparr>registeredSettings = [settingA, settingB, settingA, settingC, settingC],
               settingNameSet = {''c'', ''b'', ''a''}\<rparr>"
  by (simp add: registerSettingExtengionsForTest_def registerSettingExtension_def
      settingA_def settingB_def settingC_def)

text \<open>
  C1, amended. In every registry state, registering a descriptor whose name is in the
  registry's name set throws the duplicate-name error and leaves the list and the set as
  they were; registering a descriptor whose name is not in the set returns, with the
  descriptor appended at the end of the list and its name added to the set. Whenever the
  set holds exactly the names of the list (as it does after every sequence of returning
  calls), a descriptor whose name occurs in the list is in the first case.
\<close>

theorem register_duplicate_or_fresh:
  "(settingName d \<in> settingNameSet s \<longrightarrow>
      registerSettingExtension d s = Thrown (Error (duplicateSettingName (settingName d))) s) \<and>
   (settingName d \<notin> settingNameSet s \<longrightarrow>
      registerSettingExtension d s =
        Returned \<lparr>registeredSettings = registeredSettings s @ [d],
                  settingNameSet = insert (settingName d) (settingNameSet s)\<rparr>) \<and>
   (settingNameSet s = set (map settingName (registeredSettings s)) \<and>
    settingName d \<in> set (map settingName (registeredSettings s)) \<longrightarrow>
      registerSettingExtension d s = Thrown (Error (duplicateSettingName (settingName d))) s)"
  by (simp add: registerSettingExtension_def)

theorem register_duplicate_or_fresh_witness:
  "registerSettingExtension settingA \<lparr>registeredSettings = [settingA], settingNameSet = {''a''}\<rparr> =
     Thrown (Error (''Duplicate setting name '' @ [CHR 0x27] @ ''a'' @ [CHR 0x27]))
       \<lparr>registeredSettings = [settingA], settingNameSet = {''a''}\<rparr> \<and>
   registerSettingExtension settingB \<lparr>registeredSettings = [settingA], settingNameSet = {''a''}\<rparr> =
     Returned \<lparr>registeredSettings = [settingA, settingB], settingNameSet = {''b'', ''a''}\<rparr>"
  using register_duplicate_or_fresh
          [of settingA "\<lparr>registeredSettings = [settingA], settingNameSet = {''a''}\<rparr>"]
        register_duplicate_or_fresh
          [of settingB "\<lparr>registeredSettings = [settingA], settingNameSet = {''a''}\<rparr>"]
  by (simp add: settingA_def settingB_def duplicateSettingName_def)

text \<open>
  C2, as stated, fails: a forced rebuild of the registry holding \<open>b\<close> from the list
  \<open>[a, a]\<close> throws, and the registry it leaves behind is not the one before the call.
\<close>

theorem reset_duplicate_counterexample:
  "registerSettingExtengionsForTest [settingA, settingA] True
     \<lparr>registeredSettings = [settingB], settingNameSet = {''b''}\<rparr> =
     Thrown (Error (duplicateSettingName ''a''))
       \<lparr>registeredSettings = [settingA, settingA], settingNameSet = {''a''}\<rparr> \<and>
   \<lparr>registeredSettings = [settingA, settingA], settingNameSet = {''a''}\<rparr> \<noteq>
     \<lparr>registeredSettings = [settingB], settingNameSet = {''b''}\<rparr>"
  by (simp add: registerSettingExtengionsForTest_def settingA_def settingB_def)

text \<open>
  C2, amended. When the rebuild runs (registry empty or \<open>forceReset\<close>) on a list in which a
  name repeats, the call throws the duplicate-name error of \<open>register\<close> for the first
  descriptor whose name occurred earlier in the list, and the registry is left with the
  supplied list as its descriptor list and with exactly the names before that descriptor
  in its name set.
\<close>

theorem reset_duplicate_throws:
  assumes "registeredSettings s = [] \<or> forceReset"
    and "\<not> distinct (map settingName settings)"
  shows "\<exists>pre x post.
           settings = pre @ x # post \<and> distinct (map settingName pre) \<and>
           settingName x \<in> set (map settingName pre) \<and>
           registerSettingExtengionsForTest settings forceReset s =
             Thrown (Error (duplicateSettingName (settingName x)))
               \<lparr>registeredSettings = settings, settingNameSet = set (map settingName pre)\<rparr>"
proof -
  from assms(2) obtain pre x post
    where split: "settings = pre @ x # post" "distinct (map settingName pre)"
      "settingName x \<in> set (map settingName pre)"
    using first_repeat [of settingName settings] by blast
  let ?s = "s\<lparr>registeredSettings := settings, settingNameSet := {}\<rparr>"
  from split have "addSettingNames (pre @ x # post) ?s =
      Thrown (Error (duplicateSettingName (settingName x)))
        (?s\<lparr>settingNameSet := settingNameSet ?s \<union> set (map settingName pre)\<rparr>)"
    by (intro addSettingNames_repeat) simp_all
  with assms(1) split(1)
  have "registerSettingExtengionsForTest settings forceReset s =
      Thrown (Error (duplicateSettingName (settingName x)))
        \<lparr>registeredSettings = settings, settingNameSet = set (map settingName pre)\<rparr>"
    by (auto simp: registerSettingExtengionsForTest_def)
  with split show ?thesis by blast
qed

theorem reset_duplicate_throws_witness:
  "\<exists>pre x post.
     [settingA, settingB, settingA, settingC] = pre @ x # post \<and>
     distinct (map settingName pre) \<and> settingName x \<in> set (map settingName pre) \<and>
     registerSettingExtengionsForTest [settingA, settingB, settingA, settingC] True
         \<lparr>registeredSettings = [settingC], settingNameSet = {''c''}\<rparr> =
       Thrown (Error (duplicateSettingName (settingName x)))
         \<lparr>registeredSettings = [settingA, settingB, settingA, settingC],
          settingNameSet = set (map settingName pre)\<rparr>"
proof -
  have dup: "\<not> distinct (map settingName [settingA, settingB, settingA, settingC])"
    by (simp add: settingA_def)
  have run: "registeredSettings \<lparr>registeredSettings = [settingC], settingNameSet = {''c''}\<rparr> = [] \<or> True"
    by simp
  show ?thesis by (rule reset_duplicate_throws [OF run dup])
qed

text \<open>
  C4. Registering descriptors with pairwise-distinct names, none of them in the registry
  yet, succeeds for all of them, and \<open>getRegisteredSettings\<close> then returns what it
  returned before followed by those of the new descriptors that the gating predicate
  enables, in the order of registration; with the always-true predicate it returns every
  registered descriptor in that order. From the empty registry this is the filtered
  sequence itself.
\<close>

theorem getRegisteredSettings_registration_order:
  assumes "distinct (map settingName ds)"
    and "set (map settingName ds) \<inter> settingNameSet s = {}"
  shows "\<exists>s'. registerAll ds s = Returned s' \<and>
           getRegisteredSettings enabled s' =
             getRegisteredSettings enabled s @
             filter (\<lambda>d. enabled (experiment d, condition d)) ds \<and>
           getRegisteredSettings (\<lambda>_. True) s' = registeredSettings s @ ds"
  using registerAll_fresh [OF assms] by (simp add: getRegisteredSettings_def)

theorem getRegisteredSettings_registration_order_witness:
  "\<exists>s'. registerAll [settingC, settingA, settingB] emptyRegistry = Returned s' \<and>
     getRegisteredSettings (\<lambda>(e, c). e = None) s' = [settingC, settingA] \<and>
     getRegisteredSettings (\<lambda>_. True) s' = [settingC, settingA, settingB]"
proof -
  have d: "distinct (map settingName [settingC, settingA, settingB])"
    by (simp add: settingA_def settingB_def settingC_def)
  have f: "set (map settingName [settingC, settingA, settingB]) \<inter> settingNameSet emptyRegistry = {}"
    by (simp add: emptyRegistry_def)
  show ?thesis
    using getRegisteredSettings_registration_order [OF d f, of "\<lambda>(e, c). e = None"]
    by (simp add: emptyRegistry_def getRegisteredSettings_def settingA_def settingB_def settingC_def)
qed

text \<open>
  C5. On a non-empty registry \<open>registerSettingExtengionsForTest\<close> without \<open>forceReset\<close>
  returns and changes nothing. With \<open>forceReset\<close>, or on an empty registry, the
  descriptor list becomes exactly the supplied list and the name set is rebuilt from that
  list: it holds names of the list only, and when the names of the list are pairwise
  distinct the call returns with exactly the names of the list in the set.
\<close>

theorem reset_noop_or_replace:
  "(registeredSettings s \<noteq> [] \<and> \<not> forceReset \<longrightarrow>
      registerSettingExtengionsForTest settings forceReset s = Returned s) \<and>
   (registeredSettings s = [] \<or> forceReset \<longrightarrow>
      registeredSettings (stateOf (registerSettingExtengionsForTest settings forceReset s)) = settings \<and>
      settingNameSet (stateOf (registerSettingExtengionsForTest settings forceReset s))
        \<subseteq> set (map settingName settings) \<and>
      (distinct (map settingName settings) \<longrightarrow>
         registerSettingExtengionsForTest settings forceReset s =
           Returned \<lparr>registeredSettings = settings,
                     settingNameSet = set (map settingName settings)\<rparr>))"
proof -
  let ?s = "s\<lparr>registeredSettings := settings, settingNameSet := {}\<rparr>"
  have "settingNameSet (stateOf (addSettingNames settings ?s)) \<subseteq> set (map settingName settings)"
    using addSettingNames_names [of settings ?s] by simp
  moreover have "registeredSettings (stateOf (addSettingNames settings ?s)) = settings"
    by (simp add: addSettingNames_list)
  moreover have "addSettingNames settings ?s =
      Returned \<lparr>registeredSettings = settings, settingNameSet = set (map settingName settings)\<rparr>"
    if "distinct (map settingName settings)"
    using addSettingNames_fresh [of settings ?s] that by simp
  ultimately show ?thesis
    by (simp add: registerSettingExtengionsForTest_def)
qed

theorem reset_noop_or_replace_witness:
  "registerSettingExtengionsForTest [settingB, settingC] False
       \<lparr>registeredSettings = [settingA], settingNameSet = {''a''}\<rparr> =
     Returned \<lparr>registeredSettings = [settingA], settingNameSet = {''a''}\<rparr> \<and>
   registerSettingExtengionsForTest [settingB, settingC] True
       \<lparr>registeredSettings = [settingA], settingNameSet = {''a''}\<rparr> =
     Returned \<lparr>registeredSettings = [settingB, settingC], settingNameSet = {''b'', ''c''}\<rparr> \<and>
   registerSettingExtengionsForTest [settingB, settingC] False emptyRegistry =
     Returned \<lparr>registeredSettings = [settingB, settingC], settingNameSet = {''b'', ''c''}\<rparr>"
  using reset_noop_or_replace
          [of "\<lparr>registeredSettings = [settingA], settingNameSet = {''a''}\<rparr>" False "[settingB, settingC]"]
        reset_noop_or_replace
          [of "\<lparr>registeredSettings = [settingA], settingNameSet = {''a''}\<rparr>" True "[settingB, settingC]"]
        reset_noop_or_replace [of emptyRegistry False "[settingB, settingC]"]
  by (simp add: emptyRegistry_def settingB_def settingC_def)

text \<open>
  C10. After every sequence of registry calls that all return, started on the empty
  registry, the names of the registered descriptors are pairwise distinct and the name
  set holds exactly the name of each registered descriptor.
\<close>

theorem registry_invariant:
  assumes "performAll cs emptyRegistry = Returned s"
  shows "distinct (map settingName (registeredSettings s)) \<and>
         settingNameSet s = set (map settingName (registeredSettings s))"
proof -
  have "consistent emptyRegistry"
    by (simp add: consistent_def emptyRegistry_def)
  then have "consistent s"
    using assms by (rule performAll_consistent)
  then show ?thesis by (simp add: consistent_def)
qed

theorem registry_invariant_witness:
  "performAll [Register settingA, ResetForTest [settingB] False, Register settingB,
               ResetForTest [settingC, settingA] True, Register settingB] emptyRegistry =
     Returned \<lparr>registeredSettings = [settingC, settingA, settingB],
               settingNameSet = {''b'', ''a'', ''c''}\<rparr> \<and>
   distinct (map settingName [settingC, settingA, settingB]) \<and>
   {''b'', ''a'', ''c''} = set (map settingName [settingC, settingA, settingB])"
proof -
  have run: "performAll [Register settingA, ResetForTest [settingB] False, Register settingB,
               ResetForTest [settingC, settingA] True, Register settingB] emptyRegistry =
     Returned \<lparr>registeredSettings = [settingC, settingA, settingB],
               settingNameSet = {''b'', ''a'', ''c''}\<rparr>"
    by (simp add: registerSettingExtension_def registerSettingExtengionsForTest_def
        emptyRegistry_def settingA_def settingB_def settingC_def)
  from registry_invariant [OF run] run show ?thesis by simp
qed

section \<open>Details view: helper lemmas\<close>

lemma floor_rat_numeral: "\<lfloor>(numeral a :: rat) / numeral b\<rfloor> = numeral a div numeral b"
  using floor_divide_of_int_eq [of "numeral a" "numeral b", where ?'a = rat] by simp




lemma setContent_fields [simp]:
  "model (setContent e node s) = model s"
  "track (setContent e node s) = track s"
  "selection (setContent e node s) = selection s"
  "lazyLayersView (setContent e node s) = lazyLayersView s"
  "lazyPaintProfilerView (setContent e node s) = lazyPaintProfilerView s"
  "viewsCreated (setContent e node s) = viewsCreated s"
  "effects (setContent e node s) = effects s"
  "pending (setContent e node s) = pending s"
  "preferredTabId (setContent e node s) = preferredTabId s"
  "additionalMetricsToolbar (setContent e node s) = additionalMetricsToolbar s"
  "detailsContent (setContent e node s) = [node]"
  by (simp_all add: setContent_def Let_def)

lemma closing_tabs:
  "tabs (foldl (\<lambda>p t. if rangeDetailViews t = None then closeTab e t p else p) p ts) =
     filter (\<lambda>x. \<not> (fst x \<in> set ts \<and> rangeDetailViews (fst x) = None)) (tabs p)"
proof (induction ts arbitrary: p)
  case Nil
  then show ?case by simp
next
  case (Cons t ts)
  show ?case
    by (simp add: Cons.IH closeTab_def closeTabs_def Let_def) (auto intro: filter_cong)
qed

lemma setContent_tabs:
  "tabs (tabbedPane (setContent e node s)) =
     filter (\<lambda>x. fst x = Details \<or> rangeDetailViews (fst x) \<noteq> None) (tabs (tabbedPane s))"
  by (auto simp: setContent_def Let_def closing_tabs otherTabs_def intro!: filter_cong)

lemma appendTab_fields [simp]:
  "model (appendTab t v s) = model s"
  "track (appendTab t v s) = track s"
  "selection (appendTab t v s) = selection s"
  "lazyLayersView (appendTab t v s) = lazyLayersView s"
  "lazyPaintProfilerView (appendTab t v s) = lazyPaintProfilerView s"
  "viewsCreated (appendTab t v s) = viewsCreated s"
  "effects (appendTab t v s) = effects s"
  "pending (appendTab t v s) = pending s"
  "detailsContent (appendTab t v s) = detailsContent s"
  "tabs (tabbedPane (appendTab t v s)) = tabs (tabbedPane s) @ [(t, v)]"
  by (simp_all add: appendTab_def Let_def paneAppendTab_def selectTab_def)

lemma updateContentsCalls_append:
  "updateContentsCalls (xs @ ys) = updateContentsCalls xs @ updateContentsCalls ys"
  by (induction xs rule: updateContentsCalls.induct) simp_all


lemma updateContents_Returned:
  "updateContents s = Returned s' \<Longrightarrow>
   s' = s\<lparr>effects := effects s @
          (case model s of
             None \<Rightarrow> []
           | Some m \<Rightarrow>
               (case selectedTabId (tabbedPane s) of
                  None \<Rightarrow> []
                | Some t \<Rightarrow>
                    (case rangeDetailViews t of
                       None \<Rightarrow> []
                     | Some v \<Rightarrow>
                         [ViewUpdateContents v
                            (case selection s of
                               Some x \<Rightarrow> x
                             | None \<Rightarrow> fromRange (left (window m)) (right (window m)))])))\<rparr>"
  by (auto simp: updateContents_def emit_def split: option.splits)

lemma updateContents_bound:
  "model s = Some m \<Longrightarrow> \<exists>s'. updateContents s = Returned s'"
  by (simp add: updateContents_def split: option.splits)

lemma updateSelectedRangeStats_fields [simp]:
  "model (updateSelectedRangeStats e a b s) = model s"
  "selection (updateSelectedRangeStats e a b s) = selection s"
  "effects (updateSelectedRangeStats e a b s) = effects s"
  by (simp_all add: updateSelectedRangeStats_def split: option.splits)

lemma showFrame_Returned:
  "showFrame e m frame s = Returned d \<Longrightarrow>
   model d = model s \<and> selection d = selection s \<and>
   (\<exists>pre. effects d = effects s @ pre \<and> updateContentsCalls pre = [])"
  by (auto simp: showFrame_def layersView_def emit_def Let_def
      split: option.splits sum.splits if_splits)

lemma showFrame_bound:
  "model s = Some m' \<Longrightarrow> \<exists>d. showFrame e m frame s = Returned d"
  by (auto simp: showFrame_def layersView_def emit_def Let_def
      split: option.splits sum.splits if_splits)

lemma setSelection_dispatch:
  assumes "setSelection e sel s = Returned s'"
  shows "(sel = None \<and> model s = None \<and> model s' = None \<and> effects s' = effects s @ [LinkifierReset]) \<or>
         (\<exists>d pre. updateContents d = Returned s' \<and> selection d = sel \<and>
                   effects d = effects s @ pre \<and> updateContentsCalls pre = [])"
proof -
  let ?s = "(emit LinkifierReset s)\<lparr>selection := sel\<rparr>"
  have via: ?thesis
    if "updateContents d = Returned s'" "selection d = sel"
      "effects d = effects s @ pre" "updateContentsCalls pre = []" for d pre
    using that by blast
  show ?thesis
  proof (cases sel)
    case None
    show ?thesis
    proof (cases "model s")
      case None
      with \<open>sel = None\<close> assms show ?thesis
        by (auto simp: setSelection_def updateContentsFromWindow_def emit_def Let_def)
    next
      case (Some m)
      let ?d = "updateSelectedRangeStats e (left (window m)) (right (window m)) ?s"
      from Some \<open>sel = None\<close> assms have "updateContents ?d = Returned s'"
        by (simp add: setSelection_def updateContentsFromWindow_def emit_def Let_def)
      then show ?thesis
        by (rule via [where pre = "[LinkifierReset]"]) (simp_all add: emit_def)
    qed
  next
    case (Some x)
    show ?thesis
    proof (cases x)
      case (TraceEventSelection event)
      let ?d = "?s\<lparr>pending := pending ?s @ [TraceEventDetailsBuilt event]\<rparr>"
      from assms Some TraceEventSelection have "updateContents ?d = Returned s'"
        by (auto simp: setSelection_def Let_def split: option.splits)
      then show ?thesis
        by (rule via [where pre = "[LinkifierReset]"]) (simp_all add: emit_def)
    next
      case (FrameSelection frame)
      from assms Some FrameSelection obtain m d
        where d: "showFrame e m frame ?s = Returned d" "updateContents d = Returned s'"
        by (cases "model ?s"; cases "showFrame e (the (model ?s)) frame ?s")
           (auto simp: setSelection_def Let_def)
      from showFrame_Returned [OF d(1)] obtain pre
        where "selection d = sel" "effects d = effects s @ LinkifierReset # pre"
          "updateContentsCalls pre = []"
        by (auto simp: emit_def)
      with d(2) show ?thesis
        by (intro via [where pre = "LinkifierReset # pre" and d = d]) simp_all
    next
      case (NetworkRequestSelection request)
      let ?d = "?s\<lparr>pending := pending ?s @ [NetworkRequestDetailsBuilt request]\<rparr>"
      from assms Some NetworkRequestSelection have "updateContents ?d = Returned s'"
        by (auto simp: setSelection_def Let_def split: option.splits)
      then show ?thesis
        by (rule via [where pre = "[LinkifierReset]"]) (simp_all add: emit_def)
    next
      case (RangeSelection a b)
      let ?d = "updateSelectedRangeStats e a b ?s"
      from assms Some RangeSelection have "updateContents ?d = Returned s'"
        by (simp add: setSelection_def Let_def)
      then show ?thesis
        by (rule via [where pre = "[LinkifierReset]"]) (simp_all add: emit_def)
    qed
  qed
qed

lemma setSelection_bound:
  assumes "model s = Some m"
  shows "\<exists>s'. setSelection e sel s = Returned s'"
proof (cases sel)
  case None
  with assms show ?thesis
    by (simp add: setSelection_def updateContentsFromWindow_def emit_def Let_def updateContents_bound)
next
  case (Some x)
  show ?thesis
  proof (cases x)
    case (FrameSelection frame)
    let ?s = "(emit LinkifierReset s)\<lparr>selection := sel\<rparr>"
    have ms: "model ?s = Some m" using assms by (simp add: emit_def)
    then obtain d where d: "showFrame e m frame ?s = Returned d"
      using showFrame_bound by blast
    with ms have "model d = Some m" using showFrame_Returned by fastforce
    then obtain s' where "updateContents d = Returned s'"
      using updateContents_bound by blast
    with d ms Some FrameSelection show ?thesis
      by (simp add: setSelection_def Let_def)
  qed (use assms Some in \<open>simp_all add: setSelection_def emit_def Let_def updateContents_bound\<close>)
qed

lemma setSelection_Thrown:
  assumes "setSelection e sel s = Thrown err s'"
  shows "model s = None \<and> err = TypeError \<and> effects s' = effects s @ [LinkifierReset]"
proof (cases "model s")
  case (Some m)
  with setSelection_bound [OF Some, of e sel] assms show ?thesis by simp
next
  case None
  show ?thesis
  proof (cases sel)
    case None
    with \<open>model s = None\<close> assms show ?thesis
      by (simp add: setSelection_def updateContentsFromWindow_def Let_def emit_def)
  next
    case (Some x)
    with \<open>model s = None\<close> assms show ?thesis
      by (cases x)
         (auto simp: setSelection_def updateSelectedRangeStats_def updateContents_def
            Let_def emit_def split: option.splits)
  qed
qed

lemma updateContents_keeps:
  assumes "updateContents s = Returned s'"
  shows "tabbedPane s' = tabbedPane s" "lazyLayersView s' = lazyLayersView s"
    "lazyPaintProfilerView s' = lazyPaintProfilerView s" "viewsCreated s' = viewsCreated s"
    "model s' = model s" "selection s' = selection s" "detailsContent s' = detailsContent s"
    "pending s' = pending s" "track s' = track s"
    "set (effects s) \<subseteq> set (effects s')"
    "additionalMetricsToolbar s' = additionalMetricsToolbar s"
  using updateContents_Returned [OF assms] by (cases s', cases s, simp)+

lemma setContent_closes:
  "\<not> hasTab LayerViewer (tabbedPane (setContent e node s))"
  "\<not> hasTab PaintProfiler (tabbedPane (setContent e node s))"
  "set (tabs (tabbedPane (setContent e node s))) \<subseteq> set (tabs (tabbedPane s))"
  by (auto simp: hasTab_def setContent_tabs rangeDetailViews_def)

lemma setContent_no_layer_tab:
  "filter (\<lambda>x. fst x = LayerViewer) (tabs (tabbedPane (setContent e node s))) = []"
  by (auto simp: setContent_tabs rangeDetailViews_def filter_empty_conv)

lemma showFrame_layered:
  assumes "model s = Some m'" and "layerTree frame = Some tree"
  defines "v \<equiv> (case lazyLayersView s of Some c \<Rightarrow> c | None \<Rightarrow> viewsCreated s)"
  shows "\<exists>d. showFrame e m frame s = Returned d \<and> model d = Some m' \<and>
           filter (\<lambda>x. fst x = LayerViewer) (tabs (tabbedPane d)) = [(LayerViewer, LayersView v)] \<and>
           lazyLayersView d = Some v \<and>
           viewsCreated d = (case lazyLayersView s of Some c \<Rightarrow> viewsCreated s
                             | None \<Rightarrow> Suc (viewsCreated s)) \<and>
           ShowLayerTree v tree \<in> set (effects d)"
proof (cases "lazyLayersView s")
  case None
  let ?s1 = "setContent e (FrameDetails frame (filmStripModelFrame m frame)) s"
  let ?s2 = "?s1\<lparr>lazyLayersView := Some (viewsCreated s), viewsCreated := Suc (viewsCreated s)\<rparr>"
  let ?s3 = "emit (ShowLayerTree (viewsCreated s) tree) ?s2"
  have closed: "\<not> hasTab LayerViewer (tabbedPane ?s3)"
    using setContent_closes(1) [of e _ s] by (simp add: emit_def)
  have "layersView ?s1 = Inr (viewsCreated s, ?s2)"
    using None assms(1) by (simp add: layersView_def)
  with closed assms(2)
  have "showFrame e m frame s = Returned (appendTab LayerViewer (LayersView (viewsCreated s)) ?s3)"
    by (simp add: showFrame_def Let_def)
  then show ?thesis
    using None assms(1) by (simp add: v_def emit_def setContent_no_layer_tab)
next
  case (Some c)
  let ?s1 = "setContent e (FrameDetails frame (filmStripModelFrame m frame)) s"
  let ?s3 = "emit (ShowLayerTree c tree) ?s1"
  have closed: "\<not> hasTab LayerViewer (tabbedPane ?s3)"
    using setContent_closes(1) [of e _ s] by (simp add: emit_def)
  have "layersView ?s1 = Inr (c, ?s1)"
    using Some by (simp add: layersView_def)
  with closed assms(2)
  have "showFrame e m frame s = Returned (appendTab LayerViewer (LayersView c) ?s3)"
    by (simp add: showFrame_def Let_def)
  then show ?thesis
    using Some assms(1) by (simp add: v_def emit_def setContent_no_layer_tab)
qed

lemma frame_selection_step:
  assumes "model s = Some m" and "layerTree frame = Some tree"
  defines "v \<equiv> (case lazyLayersView s of Some c \<Rightarrow> c | None \<Rightarrow> viewsCreated s)"
  shows "\<exists>s'. setSelection e (Some (FrameSelection frame)) s = Returned s' \<and> model s' = Some m \<and>
           filter (\<lambda>x. fst x = LayerViewer) (tabs (tabbedPane s')) = [(LayerViewer, LayersView v)] \<and>
           lazyLayersView s' = Some v \<and>
           viewsCreated s' = (case lazyLayersView s of Some c \<Rightarrow> viewsCreated s
                              | None \<Rightarrow> Suc (viewsCreated s)) \<and>
           ShowLayerTree v tree \<in> set (effects s')"
proof -
  let ?s = "(emit LinkifierReset s)\<lparr>selection := Some (FrameSelection frame)\<rparr>"
  have s: "model ?s = Some m" "lazyLayersView ?s = lazyLayersView s" "viewsCreated ?s = viewsCreated s"
    using assms(1) by (simp_all add: emit_def)
  from showFrame_layered [OF s(1) assms(2), of e m] obtain d
    where d: "showFrame e m frame ?s = Returned d" "model d = Some m"
      "filter (\<lambda>x. fst x = LayerViewer) (tabs (tabbedPane d)) = [(LayerViewer, LayersView v)]"
      "lazyLayersView d = Some v"
      "viewsCreated d = (case lazyLayersView s of Some c \<Rightarrow> viewsCreated s
                         | None \<Rightarrow> Suc (viewsCreated s))"
      "ShowLayerTree v tree \<in> set (effects d)"
    unfolding s v_def by blast
  from updateContents_bound [OF d(2)] obtain s' where s': "updateContents d = Returned s'"
    by blast
  have "setSelection e (Some (FrameSelection frame)) s = Returned s'"
    using s(1) d(1) s' by (simp add: setSelection_def Let_def)
  with d updateContents_keeps [OF s'] show ?thesis by auto
qed

lemma setSelection_None:
  "\<exists>s'. setSelection e None s = Returned s' \<and> model s' = model s \<and>
     lazyLayersView s' = lazyLayersView s \<and> lazyPaintProfilerView s' = lazyPaintProfilerView s \<and>
     additionalMetricsToolbar s' = additionalMetricsToolbar s \<and>
     set (tabs (tabbedPane s')) \<subseteq> set (tabs (tabbedPane s))"
proof (cases "model s")
  case None
  then show ?thesis
    using setContent_closes(3) [of e EmptyDiv "(emit LinkifierReset s)\<lparr>selection := None\<rparr>"]
    by (simp add: setSelection_def updateContentsFromWindow_def Let_def emit_def)
next
  case (Some m)
  let ?s = "(emit LinkifierReset s)\<lparr>selection := None\<rparr>"
  let ?d = "updateSelectedRangeStats e (left (window m)) (right (window m)) ?s"
  have d: "model ?d = Some m" "lazyLayersView ?d = lazyLayersView s"
    "lazyPaintProfilerView ?d = lazyPaintProfilerView s"
    "additionalMetricsToolbar ?d = additionalMetricsToolbar s"
    "set (tabs (tabbedPane ?d)) \<subseteq> set (tabs (tabbedPane s))"
    using Some setContent_closes(3) [of e _ ?s]
    by (auto simp: updateSelectedRangeStats_def emit_def split: option.splits)
  from updateContents_bound [OF d(1)] obtain s' where s': "updateContents ?d = Returned s'"
    by blast
  have "setSelection e None s = Returned s'"
    using Some s' by (simp add: setSelection_def updateContentsFromWindow_def Let_def emit_def)
  with d updateContents_keeps [OF s'] Some show ?thesis by auto
qed

lemma setModel_resets:
  "\<exists>s'. setModel e m t s = Returned s' \<and> model s' = m \<and>
     lazyLayersView s' = None \<and> lazyPaintProfilerView s' = None \<and>
     \<not> hasTab LayerViewer (tabbedPane s') \<and> \<not> hasTab PaintProfiler (tabbedPane s') \<and>
     additionalMetricsToolbar s' = footer e m"
proof -
  define s4 where "s4 =
    (rebind m s)\<lparr>track := t,
      tabbedPane := closeTabs e [PaintProfiler, LayerViewer] (tabbedPane (rebind m s)),
      effects := effects (rebind m s) @ map (\<lambda>v. ViewSetModel v m t) rangeDetailViewsValues,
      lazyPaintProfilerView := None, lazyLayersView := None\<rparr>"
  have run: "setModel e m t s =
      andThen (setSelection e None s4) (\<lambda>s5. Returned (s5\<lparr>additionalMetricsToolbar := footer e m\<rparr>))"
    by (simp add: setModel_def Let_def s4_def)
  have "model (rebind m s) = m"
    by (auto simp: rebind_def Let_def emit_def split: option.splits)
  then have s4: "model s4 = m" "lazyLayersView s4 = None" "lazyPaintProfilerView s4 = None"
    "\<not> hasTab LayerViewer (tabbedPane s4)" "\<not> hasTab PaintProfiler (tabbedPane s4)"
    by (auto simp: s4_def hasTab_def closeTabs_def Let_def)
  from setSelection_None [of e s4] obtain s5
    where s5: "setSelection e None s4 = Returned s5" "model s5 = model s4"
      "lazyLayersView s5 = lazyLayersView s4" "lazyPaintProfilerView s5 = lazyPaintProfilerView s4"
      "set (tabs (tabbedPane s5)) \<subseteq> set (tabs (tabbedPane s4))"
    by blast
  with s4 have "\<not> hasTab LayerViewer (tabbedPane s5)" "\<not> hasTab PaintProfiler (tabbedPane s5)"
    by (auto simp: hasTab_def)
  with run s5 s4 show ?thesis by simp
qed


lemmas view_defs =
  setModel_def rebind_def footer_def setSelection_def updateContentsFromWindow_def
  updateSelectedRangeStats_def updateContents_def setContent_def closeTab_def closeTabs_def
  otherTabs_def hasTab_def selectTab_def paneAppendTab_def appendTab_def setPreferredTab_def
  emit_def rangeDetailViews_def rangeDetailViewsValues_def fromRange_def showFrame_def
  layersView_def Let_def

lemma summaryShown_reached:
  "setModel sampleEnv (Some sampleModel) (Some sampleTrack) constructor = Returned summaryShown"
  by (simp add: view_defs constructor_def summaryShown_def sampleEnv_def sampleModel_def
      sampleTrack_def toFixed_def floor_rat_numeral digitChars_def totalBlockingTimeSmss_def
      estimatedString_def learnMore_def)

section \<open>Details view: the claims\<close>

text \<open>
  C3, as stated, fails: with the summary tab selected, selecting a range returns after
  the dispatch without any \<open>updateContents\<close> call on any view.
\<close>

theorem setSelection_refresh_counterexample:
  "setSelection sampleEnv (Some (RangeSelection 20 30)) summaryShown =
     Returned (summaryShown
       \<lparr>selection := Some (RangeSelection 20 30),
        detailsContent := [RangeDetails [paintEvent] 20 30 5],
        effects := effects summaryShown @ [LinkifierReset]\<rparr>) \<and>
   selectedTabId (tabbedPane summaryShown) = Some Details \<and>
   updateContentsCalls (effects summaryShown @ [LinkifierReset]) = []"
  by (simp add: view_defs summaryShown_def sampleEnv_def sampleModel_def sampleTrack_def)

text \<open>
  C3, amended. For every selection value (TraceEvent, Frame, NetworkRequest, Range or
  null) \<open>setSelection\<close> returns whenever the view has a model, and whenever it returns
  it has made, after the calls of the dispatch and as its last call, exactly one
  \<open>updateContents\<close> call if the view has a model and the selected tab is one of the three
  range-detail tabs (Bottom-Up, Call Tree, Event Log): on that tab's view, with the
  selection or, for null, with the range of the model's window. With any other tab
  selected (or none, or no model) it makes no \<open>updateContents\<close> call. A call that
  throws does so in a view without a model, with a \<open>TypeError\<close>, and has made no call
  but the reset of the linkifier.
\<close>

theorem setSelection_refreshes_range_view:
  "(model s \<noteq> None \<longrightarrow> (\<exists>s'. setSelection e sel s = Returned s')) \<and>
   (\<forall>s'. setSelection e sel s = Returned s' \<longrightarrow>
      (\<exists>pre. updateContentsCalls pre = [] \<and>
         effects s' = effects s @ pre @
           (case model s' of
              None \<Rightarrow> []
            | Some m \<Rightarrow>
                (case selectedTabId (tabbedPane s') of
                   None \<Rightarrow> []
                 | Some t \<Rightarrow>
                     (case rangeDetailViews t of
                        None \<Rightarrow> []
                      | Some v \<Rightarrow>
                          [ViewUpdateContents v
                             (case sel of
                                Some x \<Rightarrow> x
                              | None \<Rightarrow> fromRange (left (window m)) (right (window m)))]))))) \<and>
   (\<forall>err s'. setSelection e sel s = Thrown err s' \<longrightarrow>
      model s = None \<and> err = TypeError \<and> effects s' = effects s @ [LinkifierReset])"
proof (intro conjI allI impI)
  assume "model s \<noteq> None"
  then show "\<exists>s'. setSelection e sel s = Returned s'"
    using setSelection_bound by blast
next
  fix s'
  assume run: "setSelection e sel s = Returned s'"
  let ?R = "\<lambda>s'. (case model s' of
              None \<Rightarrow> []
            | Some m \<Rightarrow>
                (case selectedTabId (tabbedPane s') of
                   None \<Rightarrow> []
                 | Some t \<Rightarrow>
                     (case rangeDetailViews t of
                        None \<Rightarrow> []
                      | Some v \<Rightarrow>
                          [ViewUpdateContents v
                             (case sel of
                                Some x \<Rightarrow> x
                              | None \<Rightarrow> fromRange (left (window m)) (right (window m)))])))"
  from setSelection_dispatch [OF run]
  show "\<exists>pre. updateContentsCalls pre = [] \<and> effects s' = effects s @ pre @ ?R s'"
  proof (elim disjE conjE exE)
    assume "model s' = None" "effects s' = effects s @ [LinkifierReset]"
    then have "updateContentsCalls [LinkifierReset] = [] \<and>
        effects s' = effects s @ [LinkifierReset] @ ?R s'"
      by simp
    then show ?thesis by blast
  next
    fix d pre
    assume d: "updateContents d = Returned s'" "selection d = sel"
      "effects d = effects s @ pre" "updateContentsCalls pre = []"
    from updateContents_Returned [OF d(1)]
    have same: "model s' = model d" "tabbedPane s' = tabbedPane d"
      by (cases s', cases d, simp)+
    from updateContents_Returned [OF d(1)] d(2)
    have "effects s' = effects d @ ?R d"
      by (cases s', cases d, simp cong: option.case_cong)
    moreover have "?R s' = ?R d"
      by (simp only: same)
    ultimately have "effects s' = effects s @ pre @ ?R s'"
      using d(3) by simp
    with d(4) show ?thesis by blast
  qed
next
  fix err s'
  assume thrown: "setSelection e sel s = Thrown err s'"
  from setSelection_Thrown [OF thrown]
  show "model s = None" "err = TypeError" "effects s' = effects s @ [LinkifierReset]"
    by simp_all
qed

theorem setSelection_refreshes_range_view_witness:
  "setSelection sampleEnv (Some (RangeSelection 20 30)) bottomUpShown =
     Returned (bottomUpShown
       \<lparr>selection := Some (RangeSelection 20 30),
        detailsContent := [RangeDetails [paintEvent] 20 30 5],
        effects := effects bottomUpShown @
          [LinkifierReset, ViewUpdateContents (RangeDetailView BottomUp) (RangeSelection 20 30)]\<rparr>)"
  using setSelection_refreshes_range_view [of bottomUpShown sampleEnv "Some (RangeSelection 20 30)"]
  by (simp add: view_defs bottomUpShown_def summaryShown_def sampleEnv_def sampleModel_def sampleTrack_def)


text \<open>
  C6. In a view that has a model, selecting a frame with a layer tree returns with
  exactly one LayerViewer tab open, showing the cached layers view; selecting a second
  such frame (the same or another) returns with exactly one LayerViewer tab again, on the
  same layers-view instance, without constructing a view, and shows the second tree in
  it. The next \<open>setModel\<close> empties the cache and leaves no LayerViewer tab.
\<close>

theorem layer_viewer_tab_reused:
  assumes "model s = Some m" and "layerTree frame = Some tree" and "layerTree frame' = Some tree'"
  shows "\<exists>s1 s2 v.
           setSelection e (Some (FrameSelection frame)) s = Returned s1 \<and>
           filter (\<lambda>x. fst x = LayerViewer) (tabs (tabbedPane s1)) = [(LayerViewer, LayersView v)] \<and>
           lazyLayersView s1 = Some v \<and>
           setSelection e (Some (FrameSelection frame')) s1 = Returned s2 \<and>
           filter (\<lambda>x. fst x = LayerViewer) (tabs (tabbedPane s2)) = [(LayerViewer, LayersView v)] \<and>
           lazyLayersView s2 = Some v \<and> viewsCreated s2 = viewsCreated s1 \<and>
           ShowLayerTree v tree' \<in> set (effects s2) \<and>
           lazyLayersView (stateOf (setModel e m' t s2)) = None \<and>
           \<not> hasTab LayerViewer (tabbedPane (stateOf (setModel e m' t s2)))"
proof -
  define v where "v = (case lazyLayersView s of Some c \<Rightarrow> c | None \<Rightarrow> viewsCreated s)"
  from frame_selection_step [OF assms(1,2), of e] obtain s1
    where s1: "setSelection e (Some (FrameSelection frame)) s = Returned s1" "model s1 = Some m"
      "filter (\<lambda>x. fst x = LayerViewer) (tabs (tabbedPane s1)) = [(LayerViewer, LayersView v)]"
      "lazyLayersView s1 = Some v"
    unfolding v_def by blast
  from frame_selection_step [OF s1(2) assms(3), of e] s1(4) obtain s2
    where s2: "setSelection e (Some (FrameSelection frame')) s1 = Returned s2"
      "filter (\<lambda>x. fst x = LayerViewer) (tabs (tabbedPane s2)) = [(LayerViewer, LayersView v)]"
      "lazyLayersView s2 = Some v" "viewsCreated s2 = viewsCreated s1"
      "ShowLayerTree v tree' \<in> set (effects s2)"
    by auto
  from setModel_resets [of e m' t s2]
  have "lazyLayersView (stateOf (setModel e m' t s2)) = None"
    "\<not> hasTab LayerViewer (tabbedPane (stateOf (setModel e m' t s2)))"
    by auto
  with s1 s2 show ?thesis by blast
qed

theorem layer_viewer_tab_reused_witness:
  "\<exists>s1 s2 v.
     setSelection sampleEnv (Some (FrameSelection layeredFrame)) summaryShown = Returned s1 \<and>
     filter (\<lambda>x. fst x = LayerViewer) (tabs (tabbedPane s1)) = [(LayerViewer, LayersView v)] \<and>
     lazyLayersView s1 = Some v \<and>
     setSelection sampleEnv (Some (FrameSelection (layeredFrame\<lparr>frameId := 8\<rparr>))) s1 = Returned s2 \<and>
     filter (\<lambda>x. fst x = LayerViewer) (tabs (tabbedPane s2)) = [(LayerViewer, LayersView v)] \<and>
     lazyLayersView s2 = Some v \<and> viewsCreated s2 = viewsCreated s1 \<and>
     ShowLayerTree v 4 \<in> set (effects s2) \<and>
     lazyLayersView (stateOf (setModel sampleEnv None None s2)) = None \<and>
     \<not> hasTab LayerViewer (tabbedPane (stateOf (setModel sampleEnv None None s2)))"
proof -
  have m: "model summaryShown = Some sampleModel"
    by (simp add: summaryShown_def)
  have f: "layerTree layeredFrame = Some 4" "layerTree (layeredFrame\<lparr>frameId := 8\<rparr>) = Some 4"
    by (simp_all add: layeredFrame_def)
  show ?thesis
    by (rule layer_viewer_tab_reused [OF m f])
qed

text \<open>
  C7. For an event named Paint or RasterTask: a PaintProfiler tab is open after
  \<open>_appendDetailsTabsForTraceEventAndShowDetails\<close> only if a paint-profiler model
  exists. Without one the call returns, its result is that of \<open>_setContent\<close> alone, no
  tab is added and no PaintProfiler tab is open; the same holds for the whole path from
  \<open>setSelection\<close> of the event to the run of its promise callback. With a model, a
  paint-profiler model and profile data for the event the tab is open afterwards.
\<close>

theorem paint_profiler_tab_needs_model:
  assumes "name event = RecordType_Paint \<or> name event = RecordType_RasterTask"
  shows "(hasTab PaintProfiler
            (tabbedPane (stateOf (appendDetailsTabsForTraceEventAndShowDetails e event node s))) \<longrightarrow>
          paintProfilerModel e \<noteq> None) \<and>
         (paintProfilerModel e = None \<longrightarrow>
            appendDetailsTabsForTraceEventAndShowDetails e event node s =
              Returned (setContent e node s) \<and>
            set (tabs (tabbedPane (setContent e node s))) \<subseteq> set (tabs (tabbedPane s)) \<and>
            \<not> hasTab PaintProfiler (tabbedPane (setContent e node s))) \<and>
         (paintProfilerModel e = None \<and> model s \<noteq> None \<longrightarrow>
            (\<exists>s1 s2.
               setSelection e (Some (TraceEventSelection event)) s = Returned s1 \<and>
               tabs (tabbedPane s1) = tabs (tabbedPane s) \<and>
               pending s1 = pending s @ [TraceEventDetailsBuilt event] \<and>
               settle e (TraceEventDetailsBuilt event) s1 = Returned s2 \<and>
               set (tabs (tabbedPane s2)) \<subseteq> set (tabs (tabbedPane s)) \<and>
               \<not> hasTab PaintProfiler (tabbedPane s2))) \<and>
         (model s \<noteq> None \<and> (\<exists>ppm. paintProfilerModel e = Some ppm \<and> setEvent e ppm event) \<longrightarrow>
            hasTab PaintProfiler
              (tabbedPane (stateOf (appendDetailsTabsForTraceEventAndShowDetails e event node s))))"
proof (intro conjI impI)
  show "paintProfilerModel e \<noteq> None"
    if "hasTab PaintProfiler
          (tabbedPane (stateOf (appendDetailsTabsForTraceEventAndShowDetails e event node s)))"
  proof
    assume "paintProfilerModel e = None"
    with that have "hasTab PaintProfiler (tabbedPane (setContent e node s))"
      by (simp add: appendDetailsTabsForTraceEventAndShowDetails_def showEventInPaintProfiler_def
          Let_def split: if_splits)
    then show False by (simp add: setContent_closes)
  qed
next
  assume none: "paintProfilerModel e = None"
  then show "appendDetailsTabsForTraceEventAndShowDetails e event node s = Returned (setContent e node s)"
    by (simp add: appendDetailsTabsForTraceEventAndShowDetails_def showEventInPaintProfiler_def Let_def)
  show "set (tabs (tabbedPane (setContent e node s))) \<subseteq> set (tabs (tabbedPane s))"
    by (rule setContent_closes)
  show "\<not> hasTab PaintProfiler (tabbedPane (setContent e node s))"
    by (rule setContent_closes)
next
  assume a: "paintProfilerModel e = None \<and> model s \<noteq> None"
  then obtain m where m: "model s = Some m" by auto
  let ?d = "(emit LinkifierReset s)\<lparr>selection := Some (TraceEventSelection event),
              pending := pending s @ [TraceEventDetailsBuilt event]\<rparr>"
  have "model ?d = Some m" using m by (simp add: emit_def)
  from updateContents_bound [OF this] obtain s1 where s1: "updateContents ?d = Returned s1"
    by blast
  have sel: "setSelection e (Some (TraceEventSelection event)) s = Returned s1"
    using m s1 by (simp add: setSelection_def Let_def emit_def)
  have keep: "tabs (tabbedPane s1) = tabs (tabbedPane s)"
    "pending s1 = pending s @ [TraceEventDetailsBuilt event]"
    using updateContents_keeps [OF s1] by (simp_all add: emit_def)
  let ?s = "s1\<lparr>pending := remove1 (TraceEventDetailsBuilt event) (pending s1)\<rparr>"
  let ?s2 = "setContent e (TraceEventDetails event) ?s"
  have st: "settle e (TraceEventDetailsBuilt event) s1 = Returned ?s2"
    using a by (simp add: settle_def appendDetailsTabsForTraceEventAndShowDetails_def
        showEventInPaintProfiler_def Let_def)
  have "set (tabs (tabbedPane ?s2)) \<subseteq> set (tabs (tabbedPane s))"
    using setContent_closes(3) [of e "TraceEventDetails event" ?s] keep(1) by simp
  moreover have "\<not> hasTab PaintProfiler (tabbedPane ?s2)"
    by (rule setContent_closes)
  ultimately show "\<exists>s1 s2.
      setSelection e (Some (TraceEventSelection event)) s = Returned s1 \<and>
      tabs (tabbedPane s1) = tabs (tabbedPane s) \<and>
      pending s1 = pending s @ [TraceEventDetailsBuilt event] \<and>
      settle e (TraceEventDetailsBuilt event) s1 = Returned s2 \<and>
      set (tabs (tabbedPane s2)) \<subseteq> set (tabs (tabbedPane s)) \<and>
      \<not> hasTab PaintProfiler (tabbedPane s2)"
    using sel keep st by blast
next
  assume a: "model s \<noteq> None \<and> (\<exists>ppm. paintProfilerModel e = Some ppm \<and> setEvent e ppm event)"
  then obtain m ppm where m: "model s = Some m" "paintProfilerModel e = Some ppm" "setEvent e ppm event"
    by auto
  have closed: "\<not> hasTab PaintProfiler (tabbedPane (setContent e node s))"
    by (rule setContent_closes)
  show "hasTab PaintProfiler
      (tabbedPane (stateOf (appendDetailsTabsForTraceEventAndShowDetails e event node s)))"
    using assms m closed
    by (cases "lazyPaintProfilerView s")
       (simp_all add: appendDetailsTabsForTraceEventAndShowDetails_def showEventInPaintProfiler_def
          paintProfilerView_def Let_def emit_def hasTab_def)
qed

theorem paint_profiler_tab_needs_model_witness:
  "appendDetailsTabsForTraceEventAndShowDetails sampleEnv paintEvent (TraceEventDetails paintEvent)
     summaryShown =
     Returned (summaryShown\<lparr>detailsContent := [TraceEventDetails paintEvent]\<rparr>) \<and>
   \<not> hasTab PaintProfiler (tabbedPane summaryShown) \<and>
   hasTab PaintProfiler
     (tabbedPane (stateOf (appendDetailsTabsForTraceEventAndShowDetails
        (sampleEnv\<lparr>paintProfilerModel := Some 2, setEvent := (\<lambda>ppm event. True)\<rparr>)
        paintEvent (TraceEventDetails paintEvent) summaryShown)))"
proof -
  have p: "name paintEvent = RecordType_Paint \<or> name paintEvent = RecordType_RasterTask"
    by (simp add: paintEvent_def RecordType_Paint_def)
  have none: "paintProfilerModel sampleEnv = None"
    by (simp add: sampleEnv_def)
  have some: "model summaryShown \<noteq> None \<and>
      (\<exists>ppm. paintProfilerModel (sampleEnv\<lparr>paintProfilerModel := Some 2, setEvent := (\<lambda>ppm event. True)\<rparr>) = Some ppm \<and>
         setEvent (sampleEnv\<lparr>paintProfilerModel := Some 2, setEvent := (\<lambda>ppm event. True)\<rparr>) ppm paintEvent)"
    by (simp add: summaryShown_def)
  have same: "setContent sampleEnv (TraceEventDetails paintEvent) summaryShown =
      summaryShown\<lparr>detailsContent := [TraceEventDetails paintEvent]\<rparr>"
    by (simp add: view_defs summaryShown_def)
  have closed: "\<not> hasTab PaintProfiler (tabbedPane summaryShown)"
    by (simp add: hasTab_def summaryShown_def)
  from paint_profiler_tab_needs_model
         [OF p, where e = sampleEnv and node = "TraceEventDetails paintEvent" and s = summaryShown]
       none same
       paint_profiler_tab_needs_model
         [OF p, where e = "sampleEnv\<lparr>paintProfilerModel := Some 2, setEvent := (\<lambda>ppm event. True)\<rparr>"
            and node = "TraceEventDetails paintEvent" and s = summaryShown]
       some closed
  show ?thesis by simp
qed

text \<open>
  C8. In every state of a view with a model and a track, whatever the stored selection,
  \<open>setSelection(null)\<close> returns with no stored selection and with the summary body
  holding the range statistics of the track's events over exactly the bounds of
  \<open>model.window()\<close>.
\<close>

theorem setSelection_null_window_stats:
  assumes "model s = Some m" and "track s = Some t"
  shows "\<exists>s'. setSelection e None s = Returned s' \<and> selection s' = None \<and>
           detailsContent s' =
             [RangeDetails (syncEvents t) (left (window m)) (right (window m)) (minimumRecordTime m)]"
proof -
  let ?s = "(emit LinkifierReset s)\<lparr>selection := None\<rparr>"
  let ?d = "updateSelectedRangeStats e (left (window m)) (right (window m)) ?s"
  have d: "model ?d = Some m" "selection ?d = None"
    "detailsContent ?d =
       [RangeDetails (syncEvents t) (left (window m)) (right (window m)) (minimumRecordTime m)]"
    using assms by (simp_all add: updateSelectedRangeStats_def emit_def)
  from updateContents_bound [OF d(1)] obtain s' where s': "updateContents ?d = Returned s'"
    by blast
  have "setSelection e None s = Returned s'"
    using assms(1) s' by (simp add: setSelection_def updateContentsFromWindow_def Let_def emit_def)
  with d updateContents_keeps [OF s'] show ?thesis by auto
qed

theorem setSelection_null_window_stats_witness:
  "\<exists>s'. setSelection sampleEnv None
          (summaryShown\<lparr>selection := Some (RangeSelection 20 30),
                         detailsContent := [RangeDetails [paintEvent] 20 30 5]\<rparr>) = Returned s' \<and>
     selection s' = None \<and> detailsContent s' = [RangeDetails [paintEvent] 10 50 5]"
proof -
  let ?s = "summaryShown\<lparr>selection := Some (RangeSelection 20 30),
                         detailsContent := [RangeDetails [paintEvent] 20 30 5]\<rparr>"
  have m: "model ?s = Some sampleModel" and t: "track ?s = Some sampleTrack"
    by (simp_all add: summaryShown_def)
  from setSelection_null_window_stats [OF m t, where e = sampleEnv]
  show ?thesis by (simp add: sampleModel_def sampleTrack_def)
qed



end
